theory Spec2Isabelle
  imports Complex_Main "HOL-Library.Multiset"
begin

section \<open>Shared data model\<close>

text \<open>
  The Python sources (\<^verbatim>\<open>src/analyzer.py\<close>, \<^verbatim>\<open>src/root_cause.py\<close>) work on
  dict-shaped records. Numbers (Python floats and ints holding percentages and byte
  counts) are modelled as \<^typ>\<open>real\<close>: arithmetic is exact, rounding of IEEE doubles
  is not modelled. Timestamps (\<^verbatim>\<open>datetime\<close>) are seconds as \<^typ>\<open>real\<close>; the wall
  clock read by \<^verbatim>\<open>datetime.now()\<close> is an explicit argument \<open>now\<close>. Logging is
  dropped. Generated text keeps its numbers unformatted, as a list of parts.
\<close>

datatype error = ZeroDivisionError | AttributeError | StoreError string

datatype tok =
    Str string
  | F1 real
  | F0 real
  | Bytes real
  | Num int
  | PyNone

type_synonym msg = "tok list"

datatype severity = Normal | Low | Medium | High | Critical

text \<open>The strings the source uses for the severities.\<close>

fun severity_name :: "severity \<Rightarrow> string" where
  "severity_name Normal = ''normal''"
| "severity_name Low = ''low''"
| "severity_name Medium = ''medium''"
| "severity_name High = ''high''"
| "severity_name Critical = ''critical''"

record baseline =
  mean :: real
  std_dev :: real
  b_min :: real
  b_max :: real
  count :: nat

record anomaly =
  timestamp :: real
  anomaly_type :: string
  severity :: severity
  metric_name :: string
  metric_value :: real
  baseline_mean :: real
  baseline_stddev :: real
  z_score :: real
  description :: msg

section \<open>Analyzer: z-score path\<close>

text \<open>
  \<^verbatim>\<open>self.severity_levels\<close>: the configured map from tier name to cutoff; each lookup
  in \<^verbatim>\<open>_classify_severity\<close> has its own default.
\<close>

type_synonym severity_levels = "string \<rightharpoonup> real"

definition get_or :: "('k \<rightharpoonup> 'v) \<Rightarrow> 'k \<Rightarrow> 'v \<Rightarrow> 'v" where
  "get_or m k d = (case m k of None \<Rightarrow> d | Some v \<Rightarrow> v)"

definition default_severity_levels :: severity_levels where
  "default_severity_levels =
     [''low'' \<mapsto> 1.5, ''medium'' \<mapsto> 2.0, ''high'' \<mapsto> 2.5, ''critical'' \<mapsto> 3.0]"

definition classify_severity :: "severity_levels \<Rightarrow> real \<Rightarrow> severity" where
  "classify_severity levels abs_z_score =
     (let critical = get_or levels ''critical'' 3.0;
          high = get_or levels ''high'' 2.5;
          medium = get_or levels ''medium'' 2.0;
          low = get_or levels ''low'' 1.5
      in if abs_z_score \<ge> critical then Critical
         else if abs_z_score \<ge> high then High
         else if abs_z_score \<ge> medium then Medium
         else if abs_z_score \<ge> low then Low
         else Normal)"

definition get_anomaly_type :: "string \<Rightarrow> real \<Rightarrow> string" where
  "get_anomaly_type metric z =
     (if metric = ''cpu_percent'' then (if z > 0 then ''cpu_spike'' else ''cpu_drop'')
      else if metric = ''memory_percent'' then
        (if z > 0 then ''memory_pressure'' else ''memory_drop'')
      else if metric = ''swap_percent'' then
        (if z > 0 then ''swap_pressure'' else ''swap_drop'')
      else ''unknown_anomaly'')"

text \<open>
  \<^verbatim>\<open>_check_zscore\<close>. The division raises \<^verbatim>\<open>ZeroDivisionError\<close> on a zero
  \<open>std_dev\<close>; that is the \<open>Inl\<close> branch. \<open>Inr None\<close> is the source's
  \<^verbatim>\<open>return None\<close>.
\<close>

definition zscore_description :: "string \<Rightarrow> real \<Rightarrow> real \<Rightarrow> string \<Rightarrow> real \<Rightarrow> real \<Rightarrow> msg" where
  "zscore_description metric v z context mu sd =
     [Str metric, Str '' at '', F1 v, Str ''% is '', F1 \<bar>z\<bar>, Str '' std devs '',
      Str (if z > 0 then ''above'' else ''below''), Str '' normal for '', Str context,
      Str '' (typical: '', F1 mu, Str ''% +- '', F1 sd, Str ''%)'']"

definition check_zscore ::
  "severity_levels \<Rightarrow> real \<Rightarrow> string \<Rightarrow> real \<Rightarrow> baseline \<Rightarrow> string \<Rightarrow> error + anomaly option" where
  "check_zscore levels ts metric v bl context =
     (let mu = mean bl; sd = std_dev bl
      in if sd = 0 then Inl ZeroDivisionError
         else
           let z = (v - mu) / sd;
               sev = classify_severity levels \<bar>z\<bar>
           in if sev = Normal \<or> sev = Low then Inr None
              else Inr (Some \<lparr>timestamp = ts,
                              anomaly_type = get_anomaly_type metric z,
                              severity = sev,
                              metric_name = metric,
                              metric_value = v,
                              baseline_mean = mu,
                              baseline_stddev = sd,
                              z_score = z,
                              description = zscore_description metric v z context mu sd\<rparr>))"

text \<open>The tiers in rising order, and the cutoff configured for each.\<close>

fun tier_rank :: "severity \<Rightarrow> nat" where
  "tier_rank Normal = 0"
| "tier_rank Low = 1"
| "tier_rank Medium = 2"
| "tier_rank High = 3"
| "tier_rank Critical = 4"

fun cutoff :: "severity_levels \<Rightarrow> severity \<Rightarrow> real option" where
  "cutoff levels Normal = None"
| "cutoff levels Low = Some (get_or levels ''low'' 1.5)"
| "cutoff levels Medium = Some (get_or levels ''medium'' 2.0)"
| "cutoff levels High = Some (get_or levels ''high'' 2.5)"
| "cutoff levels Critical = Some (get_or levels ''critical'' 3.0)"

definition cutoffs_ordered :: "severity_levels \<Rightarrow> bool" where
  "cutoffs_ordered levels =
     (get_or levels ''low'' 1.5 \<le> get_or levels ''medium'' 2.0 \<and>
      get_or levels ''medium'' 2.0 \<le> get_or levels ''high'' 2.5 \<and>
      get_or levels ''high'' 2.5 \<le> get_or levels ''critical'' 3.0)"

lemma classify_highest:
  "cutoff levels t = Some c \<Longrightarrow> c \<le> x \<Longrightarrow> tier_rank t \<le> tier_rank (classify_severity levels x)"
  by (cases t) (auto simp: classify_severity_def Let_def)

lemma classify_qualifies:
  "cutoff levels (classify_severity levels x) = Some c \<Longrightarrow> c \<le> x"
  by (auto simp: classify_severity_def Let_def split: if_splits)

lemma classify_normal_iff:
  "classify_severity levels x = Normal \<longleftrightarrow> (\<forall>t c. cutoff levels t = Some c \<longrightarrow> x < c)"
proof
  assume n: "classify_severity levels x = Normal"
  show "\<forall>t c. cutoff levels t = Some c \<longrightarrow> x < c"
  proof (intro allI impI)
    fix t c assume tc: "cutoff levels t = Some c"
    show "x < c"
    proof (rule ccontr)
      assume "\<not> x < c"
      then have "c \<le> x" by simp
      from classify_highest[OF tc this] n have "tier_rank t = 0" by simp
      then have "t = Normal" by (cases t) auto
      with tc show False by simp
    qed
  qed
next
  assume a: "\<forall>t c. cutoff levels t = Some c \<longrightarrow> x < c"
  show "classify_severity levels x = Normal"
  proof (rule ccontr)
    assume nn: "classify_severity levels x \<noteq> Normal"
    then obtain c where c: "cutoff levels (classify_severity levels x) = Some c"
      by (cases "classify_severity levels x") auto
    from classify_qualifies[OF c] a c show False by fastforce
  qed
qed

lemma classify_normal_ordered:
  "cutoffs_ordered levels \<Longrightarrow>
   classify_severity levels x = Normal \<longleftrightarrow> x < get_or levels ''low'' 1.5"
  by (auto simp: classify_severity_def cutoffs_ordered_def Let_def)

text \<open>
  C1. For a sample value evaluated against a baseline whose \<open>std_dev\<close> is at least
  0.01, \<open>_check_zscore\<close> returns normally with \<open>z = (value - mean) / std_dev\<close>.
  The severity is the highest tier whose configured cutoff is at most \<open>\<bar>z\<bar>\<close>: no tier
  with a cutoff at most \<open>\<bar>z\<bar>\<close> ranks above it, and its own cutoff is at most
  \<open>\<bar>z\<bar>\<close> (inclusive). It is \<open>Normal\<close> exactly when \<open>\<bar>z\<bar>\<close> is below every cutoff,
  which for cutoffs in rising order is: below the low cutoff. An anomaly is returned
  exactly when the severity is medium, high or critical, and carries that z-score and
  severity.
\<close>

theorem zscore_path:
  assumes sd: "0.01 \<le> std_dev bl"
  shows "\<exists>res. check_zscore levels ts metric v bl context = Inr res \<and>
    (let z = (v - mean bl) / std_dev bl; sev = classify_severity levels \<bar>z\<bar> in
       (\<forall>t c. cutoff levels t = Some c \<and> c \<le> \<bar>z\<bar> \<longrightarrow> tier_rank t \<le> tier_rank sev) \<and>
       (\<forall>c. cutoff levels sev = Some c \<longrightarrow> c \<le> \<bar>z\<bar>) \<and>
       (sev = Normal \<longleftrightarrow> (\<forall>t c. cutoff levels t = Some c \<longrightarrow> \<bar>z\<bar> < c)) \<and>
       (cutoffs_ordered levels \<longrightarrow> (sev = Normal \<longleftrightarrow> \<bar>z\<bar> < get_or levels ''low'' 1.5)) \<and>
       (res = None \<longleftrightarrow> sev = Normal \<or> sev = Low) \<and>
       (\<forall>a. res = Some a \<longrightarrow>
          z_score a = z \<and> severity a = sev \<and> sev \<in> {Medium, High, Critical}))"
proof -
  from sd have nz: "std_dev bl \<noteq> 0" by auto
  define z where "z = (v - mean bl) / std_dev bl"
  define sev where "sev = classify_severity levels \<bar>z\<bar>"
  define res where "res = (if sev = Normal \<or> sev = Low then None
      else Some \<lparr>timestamp = ts, anomaly_type = get_anomaly_type metric z, severity = sev,
        metric_name = metric, metric_value = v, baseline_mean = mean bl,
        baseline_stddev = std_dev bl, z_score = z,
        description = zscore_description metric v z context (mean bl) (std_dev bl)\<rparr>)"
  have r: "check_zscore levels ts metric v bl context = Inr res"
    using nz by (simp add: check_zscore_def Let_def z_def sev_def res_def)
  have 1: "\<forall>t c. cutoff levels t = Some c \<and> c \<le> \<bar>z\<bar> \<longrightarrow> tier_rank t \<le> tier_rank sev"
    unfolding sev_def using classify_highest by blast
  have 2: "\<forall>c. cutoff levels sev = Some c \<longrightarrow> c \<le> \<bar>z\<bar>"
    unfolding sev_def using classify_qualifies by blast
  have 3: "sev = Normal \<longleftrightarrow> (\<forall>t c. cutoff levels t = Some c \<longrightarrow> \<bar>z\<bar> < c)"
    unfolding sev_def by (rule classify_normal_iff)
  have 4: "cutoffs_ordered levels \<longrightarrow> (sev = Normal \<longleftrightarrow> \<bar>z\<bar> < get_or levels ''low'' 1.5)"
    unfolding sev_def using classify_normal_ordered by blast
  have 5: "res = None \<longleftrightarrow> sev = Normal \<or> sev = Low"
    by (simp add: res_def)
  have 6: "\<forall>a. res = Some a \<longrightarrow> z_score a = z \<and> severity a = sev \<and> sev \<in> {Medium, High, Critical}"
    by (cases sev) (auto simp: res_def)
  show ?thesis
    unfolding Let_def z_def[symmetric] sev_def[symmetric]
    using r 1 2 3 4 5 6 by (intro exI[of _ res] conjI)
qed

definition bl0 :: baseline where
  "bl0 = \<lparr>mean = 50, std_dev = 10, b_min = 20, b_max = 90, count = 100\<rparr>"

theorem zscore_path_witness:
  "(0.01::real) \<le> std_dev bl0 \<and>
   cutoffs_ordered default_severity_levels \<and>
   classify_severity default_severity_levels 3.5 = Critical \<and>
   classify_severity default_severity_levels 3 = Critical \<and>
   classify_severity default_severity_levels 1.5 = Low \<and>
   classify_severity default_severity_levels 1.4 = Normal \<and>
   (\<exists>a. check_zscore default_severity_levels 0 ''cpu_percent'' 85 bl0 ''weekday_morning'' = Inr (Some a)
      \<and> z_score a = 3.5 \<and> severity a = Critical)"
proof -
  have h: "(0.01::real) \<le> std_dev bl0" by (simp add: bl0_def)
  from zscore_path[OF h, of default_severity_levels 0 "''cpu_percent''" 85 "''weekday_morning''"]
  show ?thesis
    by (auto simp: bl0_def Let_def cutoffs_ordered_def classify_severity_def get_or_def
        default_severity_levels_def check_zscore_def)
qed

section \<open>Analyzer: the baseline store\<close>

text \<open>
  The database manager of \<^verbatim>\<open>src/storage.py\<close>, as far as the analyzer uses it: the
  rows of the \<^verbatim>\<open>baselines\<close> table (the column \<^verbatim>\<open>last_updated\<close>, which nothing
  reads, is left out), the answer of \<^verbatim>\<open>get_metric_values_for_context\<close> (which may raise),
  whether \<^verbatim>\<open>get_all_baselines\<close> raises, and for which keys the write of
  \<^verbatim>\<open>update_baseline\<close> fails (it catches the exception itself and leaves the table as it
  was).
\<close>

record db_row =
  row_metric_name :: string
  row_context :: string
  mean_value :: real
  row_std_dev :: real
  min_value :: real
  max_value :: real
  sample_count :: nat

record db_manager =
  baselines_table :: "db_row list"
  metric_values :: "string \<Rightarrow> string \<Rightarrow> nat \<Rightarrow> error + real list"
  read_error :: "error option"
  write_fails :: "string \<Rightarrow> string \<Rightarrow> bool"

definition get_all_baselines :: "db_manager \<Rightarrow> error + db_row list" where
  "get_all_baselines db =
     (case read_error db of Some e \<Rightarrow> Inl e | None \<Rightarrow> Inr (baselines_table db))"

text \<open>\<^verbatim>\<open>INSERT ... ON CONFLICT(metric_name, context) DO UPDATE\<close>.\<close>

fun upsert :: "db_row \<Rightarrow> db_row list \<Rightarrow> db_row list" where
  "upsert r [] = [r]"
| "upsert r (x # xs) =
     (if row_metric_name x = row_metric_name r \<and> row_context x = row_context r
      then r # xs else x # upsert r xs)"

definition db_update_baseline :: "db_manager \<Rightarrow> string \<Rightarrow> string \<Rightarrow> baseline \<Rightarrow> db_manager" where
  "db_update_baseline db metric context stats =
     (if write_fails db metric context then db
      else db\<lparr>baselines_table :=
             upsert \<lparr>row_metric_name = metric, row_context = context,
                     mean_value = mean stats, row_std_dev = std_dev stats,
                     min_value = b_min stats, max_value = b_max stats,
                     sample_count = count stats\<rparr>
               (baselines_table db)\<rparr>)"

record analyzer_state =
  baselines_cache :: "(string \<times> string) \<rightharpoonup> baseline"
  last_baseline_update :: "real option"
  memory_history :: "(real \<times> real) list"
  swap_history :: "(real \<times> real) list"

definition MONITORED_METRICS :: "string list" where
  "MONITORED_METRICS = [''cpu_percent'', ''memory_percent'', ''swap_percent'']"

definition contexts :: "string list" where
  "contexts = [''weekday_morning'', ''weekday_afternoon'', ''weekday_evening'',
               ''weekday_night'', ''weekend_day'', ''weekend_night'']"

definition baseline_update_interval :: real where
  "baseline_update_interval = 3600"

definition load_baselines_from_db :: "db_manager \<Rightarrow> analyzer_state \<Rightarrow> analyzer_state" where
  "load_baselines_from_db db st =
     (case get_all_baselines db of
        Inl e \<Rightarrow> st
      | Inr baselines \<Rightarrow>
          st\<lparr>baselines_cache :=
               fold (\<lambda>b cache. cache((row_metric_name b, row_context b) \<mapsto>
                       \<lparr>mean = mean_value b, std_dev = row_std_dev b,
                        b_min = min_value b, b_max = max_value b,
                        count = sample_count b\<rparr>))
                 baselines (baselines_cache st)\<rparr>)"

text \<open>\<^verbatim>\<open>Analyzer.__init__\<close>: empty cache and buffers, then the load.\<close>

definition analyzer_init :: "db_manager \<Rightarrow> analyzer_state" where
  "analyzer_init db =
     load_baselines_from_db db
       \<lparr>baselines_cache = Map.empty, last_baseline_update = None,
        memory_history = [], swap_history = []\<rparr>"

text \<open>
  The statistics of numpy on a list of numbers: mean, population standard deviation,
  minimum and maximum. The last two are only called on the non-empty lists that pass the
  length check of \<^verbatim>\<open>update_baselines\<close>.
\<close>

definition np_mean :: "real list \<Rightarrow> real" where
  "np_mean xs = sum_list xs / real (length xs)"

definition np_std :: "real list \<Rightarrow> real" where
  "np_std xs = sqrt (sum_list (map (\<lambda>x. (x - np_mean xs)\<^sup>2) xs) / real (length xs))"

definition np_min :: "real list \<Rightarrow> real" where
  "np_min xs = fold min (tl xs) (hd xs)"

definition np_max :: "real list \<Rightarrow> real" where
  "np_max xs = fold max (tl xs) (hd xs)"

definition compute_stats :: "real list \<Rightarrow> baseline" where
  "compute_stats vs =
     (let stats = \<lparr>mean = np_mean vs, std_dev = np_std vs, b_min = np_min vs,
                   b_max = np_max vs, count = length vs\<rparr>
      in if std_dev stats < 0.01 then stats\<lparr>std_dev := 0.01\<rparr> else stats)"

text \<open>The body of the two nested loops of \<^verbatim>\<open>update_baselines\<close>, for one pair.\<close>

definition refresh_pair ::
  "nat \<Rightarrow> string \<Rightarrow> string \<Rightarrow> analyzer_state \<times> db_manager \<Rightarrow> analyzer_state \<times> db_manager" where
  "refresh_pair days metric context s =
     (case s of (st, db) \<Rightarrow>
        (case metric_values db metric context days of
           Inl e \<Rightarrow> (st, db)
         | Inr vs \<Rightarrow>
             if length vs < 10 then (st, db)
             else
               let stats = compute_stats vs;
                   db' = db_update_baseline db metric context stats
               in (st\<lparr>baselines_cache := (baselines_cache st)((metric, context) \<mapsto> stats)\<rparr>,
                   db')))"

definition update_baselines ::
  "nat \<Rightarrow> real \<Rightarrow> bool \<Rightarrow> analyzer_state \<times> db_manager \<Rightarrow> analyzer_state \<times> db_manager" where
  "update_baselines days now force s =
     (case s of (st, db) \<Rightarrow>
        if \<not> force \<and>
           (case last_baseline_update st of
              Some l \<Rightarrow> now - l < baseline_update_interval
            | None \<Rightarrow> False)
        then (st, db)
        else
          (case fold (\<lambda>metric. fold (\<lambda>context. refresh_pair days metric context) contexts)
                  MONITORED_METRICS (st, db) of
             (st', db') \<Rightarrow> (st'\<lparr>last_baseline_update := Some now\<rparr>, db')))"

text \<open>\<^verbatim>\<open>get_time_context\<close> of \<^verbatim>\<open>src/utils.py\<close>, on the weekday (0 is Monday) and hour.\<close>

definition get_time_context :: "nat \<Rightarrow> nat \<Rightarrow> string" where
  "get_time_context day_of_week hour =
     (if day_of_week < 5 then
        (if 6 \<le> hour \<and> hour \<le> 11 then ''weekday_morning''
         else if 12 \<le> hour \<and> hour \<le> 17 then ''weekday_afternoon''
         else if 18 \<le> hour \<and> hour \<le> 22 then ''weekday_evening''
         else ''weekday_night'')
      else (if 8 \<le> hour \<and> hour \<le> 20 then ''weekend_day'' else ''weekend_night''))"

text \<open>
  \<^verbatim>\<open>get_baseline\<close>; a context of \<open>None\<close> is resolved from the current weekday and
  hour \<open>dt\<close>.
\<close>

definition get_baseline ::
  "analyzer_state \<Rightarrow> nat \<times> nat \<Rightarrow> string \<Rightarrow> string option \<Rightarrow> baseline option" where
  "get_baseline st dt metric context =
     baselines_cache st
       (metric, case context of None \<Rightarrow> get_time_context (fst dt) (snd dt) | Some c \<Rightarrow> c)"

subsection \<open>What a refresh does to the cache\<close>

text \<open>The entry a refresh computes for a pair, if the history gives one.\<close>

definition fresh_entry :: "db_manager \<Rightarrow> nat \<Rightarrow> string \<times> string \<Rightarrow> baseline option" where
  "fresh_entry db days k =
     (case metric_values db (fst k) (snd k) days of
        Inl e \<Rightarrow> None
      | Inr vs \<Rightarrow> if length vs < 10 then None else Some (compute_stats vs))"

definition monitored_pairs :: "(string \<times> string) list" where
  "monitored_pairs = List.product MONITORED_METRICS contexts"

lemma refresh_pair_db:
  "metric_values (snd (refresh_pair days m c s)) = metric_values (snd s) \<and>
   write_fails (snd (refresh_pair days m c s)) = write_fails (snd s) \<and>
   read_error (snd (refresh_pair days m c s)) = read_error (snd s)"
  by (cases s) (auto simp: refresh_pair_def db_update_baseline_def Let_def split: sum.splits)

lemma refresh_pair_cache:
  "baselines_cache (fst (refresh_pair days m c s)) =
     (case fresh_entry (snd s) days (m, c) of
        None \<Rightarrow> baselines_cache (fst s)
      | Some b \<Rightarrow> (baselines_cache (fst s))((m, c) \<mapsto> b))"
  by (cases s) (auto simp: refresh_pair_def fresh_entry_def Let_def split: sum.splits)

lemma refresh_pair_rest:
  "last_baseline_update (fst (refresh_pair days m c s)) = last_baseline_update (fst s) \<and>
   memory_history (fst (refresh_pair days m c s)) = memory_history (fst s) \<and>
   swap_history (fst (refresh_pair days m c s)) = swap_history (fst s)"
  by (cases s) (auto simp: refresh_pair_def Let_def split: sum.splits)

definition refresh_all ::
  "nat \<Rightarrow> (string \<times> string) list \<Rightarrow> analyzer_state \<times> db_manager \<Rightarrow> analyzer_state \<times> db_manager" where
  "refresh_all days ps s = fold (\<lambda>k. refresh_pair days (fst k) (snd k)) ps s"

lemma nested_fold_product:
  "fold (\<lambda>m. fold (\<lambda>c. f m c) cs) ms s = fold (\<lambda>k. f (fst k) (snd k)) (List.product ms cs) s"
proof (induction ms arbitrary: s)
  case Nil
  show ?case by simp
next
  case (Cons m ms)
  have "fold (\<lambda>k. f (fst k) (snd k)) (map (Pair m) cs) s = fold (\<lambda>c. f m c) cs s" for s
    by (induction cs arbitrary: s) simp_all
  with Cons show ?case by simp
qed

lemma refresh_all_db:
  "metric_values (snd (refresh_all days ps s)) = metric_values (snd s)"
  unfolding refresh_all_def
  by (induction ps arbitrary: s) (simp_all add: refresh_pair_db)

lemma fresh_entry_cong:
  "metric_values db' = metric_values db \<Longrightarrow> fresh_entry db' days k = fresh_entry db days k"
  by (simp add: fresh_entry_def)

lemma refresh_all_cache:
  "baselines_cache (fst (refresh_all days ps s)) k =
     (if k \<in> set ps then
        (case fresh_entry (snd s) days k of None \<Rightarrow> baselines_cache (fst s) k | Some b \<Rightarrow> Some b)
      else baselines_cache (fst s) k)"
proof (induction ps arbitrary: s)
  case Nil
  show ?case by (simp add: refresh_all_def)
next
  case (Cons p ps)
  let ?s1 = "refresh_pair days (fst p) (snd p) s"
  have fe: "fresh_entry (snd ?s1) days k = fresh_entry (snd s) days k"
    by (rule fresh_entry_cong) (simp add: refresh_pair_db)
  have step: "refresh_all days (p # ps) s = refresh_all days ps ?s1"
    by (simp add: refresh_all_def)
  have c1: "baselines_cache (fst ?s1) =
     (case fresh_entry (snd s) days p of
        None \<Rightarrow> baselines_cache (fst s)
      | Some b \<Rightarrow> (baselines_cache (fst s))(p \<mapsto> b))"
    by (simp add: refresh_pair_cache split: option.splits)
  show ?case
    unfolding step Cons.IH[of ?s1] fe c1
    by (auto split: option.splits)
qed

lemma update_baselines_cache:
  "baselines_cache (fst (update_baselines days now force s)) k =
     (if \<not> force \<and> (case last_baseline_update (fst s) of
                       Some l \<Rightarrow> now - l < baseline_update_interval | None \<Rightarrow> False)
      then baselines_cache (fst s) k
      else if k \<in> set monitored_pairs then
        (case fresh_entry (snd s) days k of None \<Rightarrow> baselines_cache (fst s) k | Some b \<Rightarrow> Some b)
      else baselines_cache (fst s) k)"
proof -
  obtain st db where s: "s = (st, db)" by (cases s)
  have f: "fold (\<lambda>metric. fold (\<lambda>context. refresh_pair days metric context) contexts)
             MONITORED_METRICS (st, db) = refresh_all days monitored_pairs (st, db)"
    by (simp add: nested_fold_product refresh_all_def monitored_pairs_def)
  show ?thesis
    using refresh_all_cache[of days monitored_pairs "(st, db)" k]
    by (auto simp: s update_baselines_def f split: prod.splits option.splits)
qed

lemma update_baselines_db:
  "metric_values (snd (update_baselines days now force s)) = metric_values (snd s)"
proof -
  obtain st db where s: "s = (st, db)" by (cases s)
  have f: "fold (\<lambda>metric. fold (\<lambda>context. refresh_pair days metric context) contexts)
             MONITORED_METRICS (st, db) = refresh_all days monitored_pairs (st, db)"
    by (simp add: nested_fold_product refresh_all_def monitored_pairs_def)
  show ?thesis
    using refresh_all_db[of days monitored_pairs "(st, db)"]
    by (auto simp: s update_baselines_def f split: prod.splits option.splits)
qed

subsection \<open>Short histories leave the baseline alone\<close>

definition st_learned :: analyzer_state where
  "st_learned =
     \<lparr>baselines_cache = [(''cpu_percent'', ''weekday_morning'') \<mapsto>
          \<lparr>mean = 50, std_dev = 10, b_min = 20, b_max = 90, count = 100\<rparr>],
      last_baseline_update = None, memory_history = [], swap_history = []\<rparr>"

definition db_short :: db_manager where
  "db_short =
     \<lparr>baselines_table = [],
      metric_values = (\<lambda>m c d. if m = ''cpu_percent'' then Inr [10, 20, 30] else Inr (replicate 10 7)),
      read_error = None,
      write_fails = (\<lambda>m c. False)\<rparr>"

text \<open>
  C7. When the history query for a (metric, context) pair returns fewer than 10 values,
  a refresh (forced or not, at any time) leaves the cache entry of that pair as it was,
  and a following \<open>get_baseline\<close> for the pair returns that same entry.
\<close>

theorem refresh_short_history_unchanged:
  assumes "metric_values db m c days = Inr vs" and "length vs < 10"
  shows "baselines_cache (fst (update_baselines days now force (st, db))) (m, c)
           = baselines_cache st (m, c) \<and>
         get_baseline (fst (update_baselines days now force (st, db))) dt m (Some c)
           = baselines_cache st (m, c)"
proof -
  from assms have "fresh_entry db days (m, c) = None"
    by (simp add: fresh_entry_def)
  then have "baselines_cache (fst (update_baselines days now force (st, db))) (m, c)
           = baselines_cache st (m, c)"
    by (simp add: update_baselines_cache)
  then show ?thesis by (simp add: get_baseline_def)
qed

theorem refresh_short_history_unchanged_witness:
  "metric_values db_short ''cpu_percent'' ''weekday_morning'' 7 = Inr [10, 20, 30] \<and>
   length [10, 20, 30 :: real] < 10 \<and>
   get_baseline (fst (update_baselines 7 0 True (st_learned, db_short))) (0, 9)
       ''cpu_percent'' (Some ''weekday_morning'')
     = Some \<lparr>mean = 50, std_dev = 10, b_min = 20, b_max = 90, count = 100\<rparr>"
proof -
  have h1: "metric_values db_short ''cpu_percent'' ''weekday_morning'' 7 = Inr [10, 20, 30]"
    by (simp add: db_short_def)
  have h2: "length [10, 20, 30 :: real] < 10" by simp
  from refresh_short_history_unchanged[OF h1 h2, of 0 True st_learned "(0, 9)"] h1
  show ?thesis by (simp add: st_learned_def)
qed

subsection \<open>The refresh gate and repeated refreshes\<close>

text \<open>Whether \<open>update_baselines\<close> returns at once: not forced, and less than the interval
  after the last refresh.\<close>

definition refresh_skipped :: "real \<Rightarrow> bool \<Rightarrow> analyzer_state \<Rightarrow> bool" where
  "refresh_skipped now force st =
     (\<not> force \<and> (case last_baseline_update st of
                    Some l \<Rightarrow> now - l < baseline_update_interval | None \<Rightarrow> False))"

lemma update_baselines_skipped:
  "refresh_skipped now force (fst s) \<Longrightarrow> update_baselines days now force s = s"
  by (cases s) (simp add: update_baselines_def refresh_skipped_def)

lemma update_baselines_ran:
  assumes "\<not> refresh_skipped now force (fst s)"
  shows "baselines_cache (fst (update_baselines days now force s)) k =
     (if k \<in> set monitored_pairs then
        (case fresh_entry (snd s) days k of None \<Rightarrow> baselines_cache (fst s) k | Some b \<Rightarrow> Some b)
      else baselines_cache (fst s) k)"
  using assms unfolding update_baselines_cache refresh_skipped_def by auto

lemma update_baselines_twice:
  assumes "\<not> refresh_skipped now force (fst s)"
  shows "baselines_cache (fst (update_baselines days now2 force2 (update_baselines days now force s)))
       = baselines_cache (fst (update_baselines days now force s))"
proof (rule ext)
  fix k
  let ?s1 = "update_baselines days now force s"
  have fe: "fresh_entry (snd ?s1) days k = fresh_entry (snd s) days k"
    by (rule fresh_entry_cong) (rule update_baselines_db)
  show "baselines_cache (fst (update_baselines days now2 force2 ?s1)) k = baselines_cache (fst ?s1) k"
  proof (cases "refresh_skipped now2 force2 (fst ?s1)")
    case True
    then show ?thesis by (simp add: update_baselines_skipped)
  next
    case False
    show ?thesis
      unfolding update_baselines_ran[OF False] fe update_baselines_ran[OF assms]
      by (simp split: option.splits)
  qed
qed

lemma update_baselines_same_args:
  "baselines_cache (fst (update_baselines days now force (update_baselines days now force s)))
       = baselines_cache (fst (update_baselines days now force s))"
proof (cases "refresh_skipped now force (fst s)")
  case True
  then show ?thesis by (simp add: update_baselines_skipped)
next
  case False
  then show ?thesis by (rule update_baselines_twice)
qed

definition db_fives :: db_manager where
  "db_fives =
     \<lparr>baselines_table = [],
      metric_values = (\<lambda>m c d. if m = ''cpu_percent'' \<and> c = ''weekday_morning''
                                then Inr (replicate 10 5) else Inr []),
      read_error = None,
      write_fails = (\<lambda>m c. False)\<rparr>"

definition db_sevens :: db_manager where
  "db_sevens = db_fives\<lparr>metric_values := (\<lambda>m c d. if m = ''cpu_percent'' \<and> c = ''weekday_morning''
                                then Inr (replicate 10 7) else Inr [])\<rparr>"

definition st_refreshed_at_0 :: analyzer_state where
  "st_refreshed_at_0 = fst (update_baselines 7 0 False (analyzer_init db_fives, db_fives))"

lemma compute_stats_replicate_5: "compute_stats (replicate 10 5) =
    \<lparr>mean = 5, std_dev = 0.01, b_min = 5, b_max = 5, count = 10\<rparr>"
  by (simp add: compute_stats_def np_mean_def np_std_def np_min_def np_max_def Let_def
      numeral_eq_Suc)

lemma compute_stats_replicate_7: "compute_stats (replicate 10 7) =
    \<lparr>mean = 7, std_dev = 0.01, b_min = 7, b_max = 7, count = 10\<rparr>"
  by (simp add: compute_stats_def np_mean_def np_std_def np_min_def np_max_def Let_def
      numeral_eq_Suc)

lemma cpu_morning_monitored: "(''cpu_percent'', ''weekday_morning'') \<in> set monitored_pairs"
  by (simp add: monitored_pairs_def MONITORED_METRICS_def contexts_def)

lemma st_refreshed_at_0_cache:
  "baselines_cache st_refreshed_at_0 (''cpu_percent'', ''weekday_morning'')
     = Some \<lparr>mean = 5, std_dev = 0.01, b_min = 5, b_max = 5, count = 10\<rparr>"
  by (simp add: st_refreshed_at_0_def update_baselines_cache cpu_morning_monitored
      fresh_entry_def db_fives_def analyzer_init_def load_baselines_from_db_def
      get_all_baselines_def compute_stats_replicate_5)

lemma st_refreshed_at_0_last: "last_baseline_update st_refreshed_at_0 = Some 0"
proof -
  have "last_baseline_update (fst (update_baselines days now force s)) =
      (if refresh_skipped now force (fst s) then last_baseline_update (fst s) else Some now)"
    for days now force s
    by (cases s) (auto simp: update_baselines_def refresh_skipped_def split: prod.splits)
  then show ?thesis
    by (simp add: st_refreshed_at_0_def refresh_skipped_def analyzer_init_def
        load_baselines_from_db_def get_all_baselines_def db_fives_def)
qed

text \<open>
  C9 as stated fails: one minute after a refresh, with a history that has changed to ten
  values of 7, a plain call of \<open>update_baselines\<close> does not recompute. The entry stays
  the one learned from the old history, although the current history gives another.
\<close>

theorem refresh_cadence_counterexample:
  "fresh_entry db_sevens 7 (''cpu_percent'', ''weekday_morning'')
     = Some \<lparr>mean = 7, std_dev = 0.01, b_min = 7, b_max = 7, count = 10\<rparr> \<and>
   baselines_cache (fst (update_baselines 7 60 False (st_refreshed_at_0, db_sevens)))
       (''cpu_percent'', ''weekday_morning'')
     = Some \<lparr>mean = 5, std_dev = 0.01, b_min = 5, b_max = 5, count = 10\<rparr>"
proof -
  have a: "fresh_entry db_sevens 7 (''cpu_percent'', ''weekday_morning'')
     = Some \<lparr>mean = 7, std_dev = 0.01, b_min = 7, b_max = 7, count = 10\<rparr>"
    by (simp add: fresh_entry_def db_sevens_def db_fives_def compute_stats_replicate_7)
  have "refresh_skipped 60 False st_refreshed_at_0"
    by (simp add: refresh_skipped_def st_refreshed_at_0_last baseline_update_interval_def)
  then have "update_baselines 7 60 False (st_refreshed_at_0, db_sevens) = (st_refreshed_at_0, db_sevens)"
    by (simp add: update_baselines_skipped)
  with a show ?thesis by (simp add: st_refreshed_at_0_cache)
qed

text \<open>
  C9, amended. The cadence is enforced inside \<open>update_baselines\<close>: a call that is not
  forced and comes less than an hour after the last refresh returns the state as it is.
  Any other call (forced, the first one, or an hour or more after the last refresh)
  recomputes: every monitored pair whose current history yields an entry gets that entry.
  After a refresh that ran, any further refresh on the unchanged history leaves the cache
  identical; and repeating a call with the same arguments always does.
\<close>

theorem refresh_gate_and_idempotence:
  "(refresh_skipped now force st \<longrightarrow> update_baselines days now force (st, db) = (st, db)) \<and>
   (\<not> refresh_skipped now force st \<longrightarrow>
      (\<forall>k \<in> set monitored_pairs. \<forall>b. fresh_entry db days k = Some b \<longrightarrow>
         baselines_cache (fst (update_baselines days now force (st, db))) k = Some b) \<and>
      baselines_cache (fst (update_baselines days now2 force2
                              (update_baselines days now force (st, db))))
        = baselines_cache (fst (update_baselines days now force (st, db)))) \<and>
   baselines_cache (fst (update_baselines days now force
                           (update_baselines days now force (st, db))))
     = baselines_cache (fst (update_baselines days now force (st, db)))"
proof (intro conjI impI ballI allI)
  assume "refresh_skipped now force st"
  then show "update_baselines days now force (st, db) = (st, db)"
    by (simp add: update_baselines_skipped)
next
  fix k b
  assume "\<not> refresh_skipped now force st" "k \<in> set monitored_pairs"
    "fresh_entry db days k = Some b"
  then show "baselines_cache (fst (update_baselines days now force (st, db))) k = Some b"
    using update_baselines_ran[of now force "(st, db)" days k] by simp
next
  assume "\<not> refresh_skipped now force st"
  then show "baselines_cache (fst (update_baselines days now2 force2
                              (update_baselines days now force (st, db))))
        = baselines_cache (fst (update_baselines days now force (st, db)))"
    using update_baselines_twice[of now force "(st, db)" days now2 force2] by simp
next
  show "baselines_cache (fst (update_baselines days now force
                           (update_baselines days now force (st, db))))
     = baselines_cache (fst (update_baselines days now force (st, db)))"
    by (rule update_baselines_same_args)
qed

theorem refresh_gate_and_idempotence_witness:
  "refresh_skipped 60 False st_refreshed_at_0 \<and>
   update_baselines 7 60 False (st_refreshed_at_0, db_sevens) = (st_refreshed_at_0, db_sevens) \<and>
   \<not> refresh_skipped 60 True st_refreshed_at_0 \<and>
   (''cpu_percent'', ''weekday_morning'') \<in> set monitored_pairs \<and>
   fresh_entry db_sevens 7 (''cpu_percent'', ''weekday_morning'')
     = Some \<lparr>mean = 7, std_dev = 0.01, b_min = 7, b_max = 7, count = 10\<rparr> \<and>
   baselines_cache (fst (update_baselines 7 60 True (st_refreshed_at_0, db_sevens)))
       (''cpu_percent'', ''weekday_morning'')
     = Some \<lparr>mean = 7, std_dev = 0.01, b_min = 7, b_max = 7, count = 10\<rparr> \<and>
   baselines_cache (fst (update_baselines 7 61 False
                           (update_baselines 7 60 True (st_refreshed_at_0, db_sevens))))
     = baselines_cache (fst (update_baselines 7 60 True (st_refreshed_at_0, db_sevens)))"
proof -
  have s: "refresh_skipped 60 False st_refreshed_at_0"
    by (simp add: refresh_skipped_def st_refreshed_at_0_last baseline_update_interval_def)
  have n: "\<not> refresh_skipped 60 True st_refreshed_at_0"
    by (simp add: refresh_skipped_def)
  have a: "fresh_entry db_sevens 7 (''cpu_percent'', ''weekday_morning'')
     = Some \<lparr>mean = 7, std_dev = 0.01, b_min = 7, b_max = 7, count = 10\<rparr>"
    by (simp add: fresh_entry_def db_sevens_def db_fives_def compute_stats_replicate_7)
  from refresh_gate_and_idempotence[of 60 False st_refreshed_at_0 7 db_sevens]
  have 1: "update_baselines 7 60 False (st_refreshed_at_0, db_sevens) = (st_refreshed_at_0, db_sevens)"
    using s by blast
  from refresh_gate_and_idempotence[of 60 True st_refreshed_at_0 7 db_sevens 61 False]
  have 2: "baselines_cache (fst (update_baselines 7 60 True (st_refreshed_at_0, db_sevens)))
       (''cpu_percent'', ''weekday_morning'')
     = Some \<lparr>mean = 7, std_dev = 0.01, b_min = 7, b_max = 7, count = 10\<rparr>"
    and 3: "baselines_cache (fst (update_baselines 7 61 False
                           (update_baselines 7 60 True (st_refreshed_at_0, db_sevens))))
     = baselines_cache (fst (update_baselines 7 60 True (st_refreshed_at_0, db_sevens)))"
    using n a cpu_morning_monitored by blast+
  show ?thesis using s n a 1 2 3 cpu_morning_monitored by blast
qed

subsection \<open>The floor on the standard deviation\<close>

text \<open>
  The states the store can be in. The table of baselines starts empty (created by
  \<^verbatim>\<open>_create_tables\<close>) and only \<open>db_update_baseline\<close> writes it. An analyzer is built
  on the database (at start, and again at every restart of the program, on the table
  as it then is); it refreshes its baselines; between the calls the history and the
  failures of the database change freely.
\<close>

inductive store_reachable :: "analyzer_state \<times> db_manager \<Rightarrow> bool" where
  start: "baselines_table db = [] \<Longrightarrow> store_reachable (analyzer_init db, db)"
| restart: "store_reachable (st, db) \<Longrightarrow> store_reachable (analyzer_init db, db)"
| refresh: "store_reachable s \<Longrightarrow> store_reachable (update_baselines days now force s)"
| environment: "store_reachable (st, db) \<Longrightarrow>
     store_reachable (st, db\<lparr>metric_values := hist, read_error := rerr, write_fails := werr\<rparr>)"

definition floored :: "real \<Rightarrow> bool" where
  "floored sd = (0.01 \<le> sd)"

definition cache_floored :: "((string \<times> string) \<rightharpoonup> baseline) \<Rightarrow> bool" where
  "cache_floored cache = (\<forall>k b. cache k = Some b \<longrightarrow> floored (std_dev b))"

definition rows_floored :: "db_row list \<Rightarrow> bool" where
  "rows_floored rows = (\<forall>r \<in> set rows. floored (row_std_dev r))"

definition floor_inv :: "analyzer_state \<times> db_manager \<Rightarrow> bool" where
  "floor_inv s = (cache_floored (baselines_cache (fst s)) \<and> rows_floored (baselines_table (snd s)))"

lemma compute_stats_floor: "floored (std_dev (compute_stats vs))"
  by (simp add: compute_stats_def Let_def floored_def)

lemma cache_floored_upd:
  assumes "cache_floored cache" and "floored (std_dev b)"
  shows "cache_floored (cache(k \<mapsto> b))"
  unfolding cache_floored_def
proof (intro allI impI)
  fix k' b'
  assume h: "(cache(k \<mapsto> b)) k' = Some b'"
  show "floored (std_dev b')"
  proof (cases "k' = k")
    case True
    with h assms(2) show ?thesis by simp
  next
    case False
    with h have "cache k' = Some b'" by simp
    with assms(1) show ?thesis unfolding cache_floored_def by blast
  qed
qed

lemma rows_floored_Cons:
  "rows_floored (r # rows) \<longleftrightarrow> floored (row_std_dev r) \<and> rows_floored rows"
  by (simp add: rows_floored_def)

lemma rows_floored_upsert:
  "rows_floored rows \<Longrightarrow> floored (row_std_dev r) \<Longrightarrow> rows_floored (upsert r rows)"
  by (induction rows) (simp_all add: rows_floored_Cons rows_floored_def)

lemma load_fold_floored:
  "rows_floored rows \<Longrightarrow> cache_floored cache \<Longrightarrow>
   cache_floored (fold (\<lambda>b cache. cache((row_metric_name b, row_context b) \<mapsto>
                       \<lparr>mean = mean_value b, std_dev = row_std_dev b,
                        b_min = min_value b, b_max = max_value b,
                        count = sample_count b\<rparr>)) rows cache)"
proof (induction rows arbitrary: cache)
  case Nil
  then show ?case by simp
next
  case (Cons r rows)
  from Cons.prems have r: "floored (row_std_dev r)" and rs: "rows_floored rows"
    by (simp_all add: rows_floored_Cons)
  have "cache_floored (cache((row_metric_name r, row_context r) \<mapsto>
                       \<lparr>mean = mean_value r, std_dev = row_std_dev r,
                        b_min = min_value r, b_max = max_value r,
                        count = sample_count r\<rparr>))"
    by (rule cache_floored_upd) (use Cons.prems r in simp_all)
  from Cons.IH[OF rs this] show ?case by simp
qed

lemma load_keeps_floor:
  "rows_floored (baselines_table db) \<Longrightarrow> cache_floored (baselines_cache st) \<Longrightarrow>
   cache_floored (baselines_cache (load_baselines_from_db db st))"
  by (simp add: load_baselines_from_db_def get_all_baselines_def load_fold_floored
      split: option.splits)

lemma init_floor: "rows_floored (baselines_table db) \<Longrightarrow> floor_inv (analyzer_init db, db)"
proof -
  assume r: "rows_floored (baselines_table db)"
  have "cache_floored (baselines_cache \<lparr>baselines_cache = Map.empty, last_baseline_update = None,
        memory_history = [], swap_history = []\<rparr>)"
    by (simp add: cache_floored_def)
  from load_keeps_floor[OF r this] r show ?thesis
    by (simp add: floor_inv_def analyzer_init_def)
qed

lemma refresh_pair_floor: "floor_inv s \<Longrightarrow> floor_inv (refresh_pair days m c s)"
proof -
  assume inv: "floor_inv s"
  obtain st db where s: "s = (st, db)" by (cases s)
  from inv have c: "cache_floored (baselines_cache st)" and r: "rows_floored (baselines_table db)"
    by (simp_all add: s floor_inv_def)
  have c': "cache_floored ((baselines_cache st)((m, c) \<mapsto> compute_stats vs))" for vs
    by (rule cache_floored_upd[OF c compute_stats_floor])
  have r0: "rows_floored (upsert \<lparr>row_metric_name = m, row_context = c,
                     mean_value = mean (compute_stats vs), row_std_dev = std_dev (compute_stats vs),
                     min_value = b_min (compute_stats vs), max_value = b_max (compute_stats vs),
                     sample_count = count (compute_stats vs)\<rparr> (baselines_table db))" for vs
    by (rule rows_floored_upsert[OF r]) (simp add: compute_stats_floor)
  have r': "rows_floored (baselines_table (db_update_baseline db m c (compute_stats vs)))" for vs
    by (simp add: db_update_baseline_def r r0)
  show ?thesis
    using c r c' r'
    by (simp add: s floor_inv_def refresh_pair_def Let_def split: sum.splits)
qed

lemma refresh_all_floor: "floor_inv s \<Longrightarrow> floor_inv (refresh_all days ps s)"
  unfolding refresh_all_def
  by (induction ps arbitrary: s) (simp_all add: refresh_pair_floor)

lemma update_baselines_floor: "floor_inv s \<Longrightarrow> floor_inv (update_baselines days now force s)"
proof -
  assume inv: "floor_inv s"
  obtain st db where s: "s = (st, db)" by (cases s)
  have f: "fold (\<lambda>metric. fold (\<lambda>context. refresh_pair days metric context) contexts)
             MONITORED_METRICS (st, db) = refresh_all days monitored_pairs (st, db)"
    by (simp add: nested_fold_product refresh_all_def monitored_pairs_def)
  have "floor_inv (refresh_all days monitored_pairs (st, db))"
    using inv s refresh_all_floor by simp
  then show ?thesis
    using inv by (auto simp: s update_baselines_def f floor_inv_def split: prod.splits)
qed

lemma reachable_floor: "store_reachable s \<Longrightarrow> floor_inv s"
proof (induction rule: store_reachable.induct)
  case (start db)
  then show ?case by (simp add: init_floor rows_floored_def)
next
  case (restart st db)
  then have "rows_floored (baselines_table db)" by (simp add: floor_inv_def)
  then show ?case by (rule init_floor)
next
  case (refresh s days now force)
  from refresh.IH show ?case by (rule update_baselines_floor)
next
  case (environment st db hist rerr werr)
  then show ?case by (simp add: floor_inv_def)
qed

text \<open>
  C2. In every state the store can reach (by the initial load, loads at restarts and
  refreshes, whatever the database answers), every entry of the cache has a
  \<open>std_dev\<close> of at least 0.01, and so has every baseline that \<open>get_baseline\<close> returns
  and every row of the table.
\<close>

theorem std_dev_floor_invariant:
  assumes "store_reachable (st, db)"
  shows "(\<forall>k b. baselines_cache st k = Some b \<longrightarrow> 0.01 \<le> std_dev b) \<and>
         (\<forall>dt m c b. get_baseline st dt m c = Some b \<longrightarrow> 0.01 \<le> std_dev b) \<and>
         (\<forall>r \<in> set (baselines_table db). 0.01 \<le> row_std_dev r)"
proof -
  from reachable_floor[OF assms] have c: "cache_floored (baselines_cache st)"
    and r: "rows_floored (baselines_table db)"
    by (simp_all add: floor_inv_def)
  have 1: "\<forall>k b. baselines_cache st k = Some b \<longrightarrow> 0.01 \<le> std_dev b"
    using c unfolding cache_floored_def floored_def .
  have 2: "\<forall>dt m c b. get_baseline st dt m c = Some b \<longrightarrow> 0.01 \<le> std_dev b"
    unfolding get_baseline_def using 1 by blast
  have 3: "\<forall>r \<in> set (baselines_table db). 0.01 \<le> row_std_dev r"
    using r unfolding rows_floored_def floored_def .
  from 1 2 3 show ?thesis by (intro conjI)
qed

theorem std_dev_floor_invariant_witness:
  "store_reachable (st_refreshed_at_0,
                    snd (update_baselines 7 0 False (analyzer_init db_fives, db_fives))) \<and>
   (\<exists>b. get_baseline st_refreshed_at_0 (0, 9) ''cpu_percent'' None = Some b \<and>
        0.01 \<le> std_dev b)"
proof -
  have "store_reachable (analyzer_init db_fives, db_fives)"
    by (rule store_reachable.start) (simp add: db_fives_def)
  then have "store_reachable (update_baselines 7 0 False (analyzer_init db_fives, db_fives))"
    by (rule store_reachable.refresh)
  then have r: "store_reachable (st_refreshed_at_0,
                    snd (update_baselines 7 0 False (analyzer_init db_fives, db_fives)))"
    by (simp add: st_refreshed_at_0_def)
  have g: "get_baseline st_refreshed_at_0 (0, 9) ''cpu_percent'' None =
      Some \<lparr>mean = 5, std_dev = 0.01, b_min = 5, b_max = 5, count = 10\<rparr>"
    by (simp add: get_baseline_def get_time_context_def st_refreshed_at_0_cache)
  from std_dev_floor_invariant[OF r]
  have "\<forall>dt m c b. get_baseline st_refreshed_at_0 dt m c = Some b \<longrightarrow> 0.01 \<le> std_dev b"
    by (elim conjE)
  from this[rule_format, OF g] g r show ?thesis by (intro conjI exI)
qed

section \<open>Analyzer: trend detection\<close>

text \<open>
  The history buffers are lists of (timestamp, value) pairs, oldest first.
  \<^verbatim>\<open>_trim_history\<close> pops from the front while the first entry is older than the cutoff.
\<close>

definition trim_history :: "real \<Rightarrow> real \<Rightarrow> (real \<times> real) list \<Rightarrow> (real \<times> real) list" where
  "trim_history now max_age history = dropWhile (\<lambda>e. fst e < now - max_age) history"

subsection \<open>Swap thrashing\<close>

definition swap_threshold :: real where
  "swap_threshold = 100 * 1024 * 1024"

text \<open>The counting loop of \<^verbatim>\<open>_detect_swap_thrashing\<close>, over \<open>i\<close> in \<open>range(1, len)\<close>.\<close>

definition count_swap_changes :: "(real \<times> real) list \<Rightarrow> nat" where
  "count_swap_changes h =
     length (filter (\<lambda>i. \<bar>snd (h ! i) - snd (h ! (i - 1))\<bar> > swap_threshold) [1..<length h])"

definition swap_description :: "nat \<Rightarrow> nat \<Rightarrow> msg" where
  "swap_description swap_changes total_samples =
     [Str ''Swap thrashing detected: '', Num (int swap_changes),
      Str '' large swap changes (>100 MB) in '', Num (int total_samples),
      Str '' samples over the last 30 minutes. System performance severely degraded.'']"

definition detect_swap_thrashing :: "real \<Rightarrow> (real \<times> real) list \<Rightarrow> anomaly option" where
  "detect_swap_thrashing ts h =
     (if length h < 20 then None
      else
        let swap_changes = count_swap_changes h;
            total_samples = length h - 1
        in if total_samples < 10 then None
           else
             let change_ratio = real swap_changes / real total_samples
             in if change_ratio > 0.15 then
                  Some \<lparr>timestamp = ts,
                        anomaly_type = ''swap_thrashing'',
                        severity = Critical,
                        metric_name = ''swap_used'',
                        metric_value = snd (last h),
                        baseline_mean = 0,
                        baseline_stddev = 0,
                        z_score = 0,
                        description = swap_description swap_changes total_samples\<rparr>
                else None)"

text \<open>
  The claim's words: the absolute deltas of consecutive samples, and the fraction of
  them that exceeds 100 MB.
\<close>

definition consecutive_deltas :: "(real \<times> real) list \<Rightarrow> real list" where
  "consecutive_deltas h = map (\<lambda>p. \<bar>snd (snd p) - snd (fst p)\<bar>) (zip h (tl h))"

definition large_delta_fraction :: "(real \<times> real) list \<Rightarrow> real" where
  "large_delta_fraction h =
     real (length (filter (\<lambda>d. d > 100 * 1024 * 1024) (consecutive_deltas h)))
       / real (length (consecutive_deltas h))"

lemma consecutive_deltas_index:
  "consecutive_deltas h = map (\<lambda>i. \<bar>snd (h ! i) - snd (h ! (i - 1))\<bar>) [1..<length h]"
proof (rule nth_equalityI)
  show "length (consecutive_deltas h) = length (map (\<lambda>i. \<bar>snd (h ! i) - snd (h ! (i - 1))\<bar>) [1..<length h])"
    by (simp add: consecutive_deltas_def)
next
  fix i assume "i < length (consecutive_deltas h)"
  then have i: "i < length h - 1" by (simp add: consecutive_deltas_def)
  then have "consecutive_deltas h ! i = \<bar>snd (h ! Suc i) - snd (h ! i)\<bar>"
    by (simp add: consecutive_deltas_def nth_tl)
  moreover have "map (\<lambda>i. \<bar>snd (h ! i) - snd (h ! (i - 1))\<bar>) [1..<length h] ! i
      = \<bar>snd (h ! Suc i) - snd (h ! i)\<bar>"
    using i by simp
  ultimately show "consecutive_deltas h ! i = map (\<lambda>i. \<bar>snd (h ! i) - snd (h ! (i - 1))\<bar>) [1..<length h] ! i"
    by simp
qed

lemma length_consecutive_deltas: "length (consecutive_deltas h) = length h - 1"
  by (simp add: consecutive_deltas_def)

lemma count_swap_changes_deltas:
  "count_swap_changes h = length (filter (\<lambda>d. d > 100 * 1024 * 1024) (consecutive_deltas h))"
  unfolding count_swap_changes_def consecutive_deltas_index swap_threshold_def
  by (simp add: filter_map comp_def)

lemma change_ratio_fraction:
  "real (count_swap_changes h) / real (length h - 1) = large_delta_fraction h"
  by (simp add: large_delta_fraction_def count_swap_changes_deltas length_consecutive_deltas)

lemma detect_swap_thrashing_char:
  "detect_swap_thrashing ts h =
     (if 20 \<le> length h \<and> 0.15 < large_delta_fraction h then
        Some \<lparr>timestamp = ts, anomaly_type = ''swap_thrashing'', severity = Critical,
              metric_name = ''swap_used'', metric_value = snd (last h), baseline_mean = 0,
              baseline_stddev = 0, z_score = 0,
              description = swap_description (count_swap_changes h) (length h - 1)\<rparr>
      else None)"
proof (cases "length h < 20")
  case True
  then have "\<not> 20 \<le> length h" by simp
  with True show ?thesis
    unfolding detect_swap_thrashing_def by (simp only: if_True if_False simp_thms)
next
  case False
  then have t: "\<not> length h - 1 < 10" and l: "20 \<le> length h" by simp_all
  show ?thesis
    unfolding detect_swap_thrashing_def Let_def change_ratio_fraction
    by (simp only: False t l if_False simp_thms)
qed

text \<open>
  C4. \<open>_detect_swap_thrashing\<close> returns an anomaly exactly when the buffer holds at
  least 20 points and more than 0.15 of the absolute deltas of consecutive samples exceed
  100 MB; with 20 points there are at least 10 comparisons. The anomaly returned always
  has severity critical, type \<open>swap_thrashing\<close>, z-score 0 and baseline mean 0.
\<close>

theorem swap_thrashing_exactly_when:
  "((\<exists>a. detect_swap_thrashing ts h = Some a) \<longleftrightarrow>
      20 \<le> length h \<and> 0.15 < large_delta_fraction h) \<and>
   (20 \<le> length h \<longrightarrow> 10 \<le> length (consecutive_deltas h)) \<and>
   (\<forall>a. detect_swap_thrashing ts h = Some a \<longrightarrow>
      severity a = Critical \<and> anomaly_type a = ''swap_thrashing'' \<and>
      z_score a = 0 \<and> baseline_mean a = 0)"
proof (intro conjI)
  show "(\<exists>a. detect_swap_thrashing ts h = Some a) \<longleftrightarrow>
      20 \<le> length h \<and> 0.15 < large_delta_fraction h"
    unfolding detect_swap_thrashing_char
    by (cases "20 \<le> length h \<and> 0.15 < large_delta_fraction h") (simp_all only: if_True if_False simp_thms option.simps)
  show "20 \<le> length h \<longrightarrow> 10 \<le> length (consecutive_deltas h)"
    unfolding length_consecutive_deltas by arith
  show "\<forall>a. detect_swap_thrashing ts h = Some a \<longrightarrow>
      severity a = Critical \<and> anomaly_type a = ''swap_thrashing'' \<and>
      z_score a = 0 \<and> baseline_mean a = 0"
    unfolding detect_swap_thrashing_char
    by (cases "20 \<le> length h \<and> 0.15 < large_delta_fraction h") auto
qed

text \<open>Twenty samples, five seconds apart, that swing between 0 and 200 MB.\<close>

definition swap_swinging :: "(real \<times> real) list" where
  "swap_swinging =
     map (\<lambda>i. (5 * real i, if even i then 0 else 200 * 1024 * 1024)) [0..<20]"

definition swap_stable :: "(real \<times> real) list" where
  "swap_stable = map (\<lambda>i. (5 * real i, 1024)) [0..<20]"

lemma swap_swinging_length: "length swap_swinging = 20"
  by (simp add: swap_swinging_def)

lemma swap_swinging_fraction: "large_delta_fraction swap_swinging = 1"
  unfolding change_ratio_fraction[symmetric] count_swap_changes_def swap_threshold_def
  by (simp add: swap_swinging_def upt_rec nth_append)

lemma swap_stable_fraction: "large_delta_fraction swap_stable = 0"
  unfolding change_ratio_fraction[symmetric] count_swap_changes_def swap_threshold_def
  by (simp add: swap_stable_def upt_rec nth_append)

theorem swap_thrashing_exactly_when_witness:
  "20 \<le> length swap_swinging \<and> 0.15 < large_delta_fraction swap_swinging \<and>
   10 \<le> length (consecutive_deltas swap_swinging) \<and>
   (\<exists>a. detect_swap_thrashing 95 swap_swinging = Some a \<and> severity a = Critical \<and>
        anomaly_type a = ''swap_thrashing'' \<and> z_score a = 0 \<and> baseline_mean a = 0) \<and>
   detect_swap_thrashing 95 swap_stable = None"
proof -
  have "\<not> 0.15 < large_delta_fraction swap_stable" by (simp add: swap_stable_fraction)
  with swap_thrashing_exactly_when[of 95 swap_stable]
  have n: "detect_swap_thrashing 95 swap_stable = None"
    by (cases "detect_swap_thrashing 95 swap_stable") blast+
  have l: "20 \<le> length swap_swinging" by (simp add: swap_swinging_length)
  have f: "0.15 < large_delta_fraction swap_swinging" by (simp add: swap_swinging_fraction)
  from swap_thrashing_exactly_when[of 95 swap_swinging] l f n show ?thesis
    by blast
qed

subsection \<open>Memory leak\<close>

text \<open>Python's \<^verbatim>\<open>int()\<close> on a float truncates towards zero.\<close>

definition py_int :: "real \<Rightarrow> int" where
  "py_int x = (if 0 \<le> x then \<lfloor>x\<rfloor> else \<lceil>x\<rceil>)"

definition bucket_count :: int where
  "bucket_count = 12"

definition bucket_duration :: real where
  "bucket_duration = 600"

text \<open>The index computed for one entry of the history (0 is the oldest bucket).\<close>

definition bucket_idx :: "real \<Rightarrow> real \<Rightarrow> int" where
  "bucket_idx now ts =
     (let age = now - ts;
          idx = min (bucket_count - 1) (py_int (age / bucket_duration))
      in bucket_count - 1 - idx)"

text \<open>The loop that fills the twelve buckets, each in the order of the history.\<close>

definition fill_buckets :: "real \<Rightarrow> (real \<times> real) list \<Rightarrow> real list list" where
  "fill_buckets now history =
     fold (\<lambda>e buckets.
             let idx = bucket_idx now (fst e)
             in if 0 \<le> idx \<and> idx < bucket_count
                then buckets[nat idx := buckets ! nat idx @ [snd e]]
                else buckets)
       history (replicate (nat bucket_count) [])"

definition bucket_averages :: "real \<Rightarrow> (real \<times> real) list \<Rightarrow> real list" where
  "bucket_averages now history = map np_mean (filter (\<lambda>b. b \<noteq> []) (fill_buckets now history))"

text \<open>The counting loop, over \<open>i\<close> in \<open>range(len(averages) - 1)\<close>.\<close>

definition growth_count :: "real list \<Rightarrow> nat" where
  "growth_count averages =
     length (filter (\<lambda>i. averages ! (i + 1) > averages ! i) [0..<length averages - 1])"

definition leak_description :: "real \<Rightarrow> nat \<Rightarrow> nat \<Rightarrow> nat \<Rightarrow> msg" where
  "leak_description growth_mb_per_hour n_averages growth total_comparisons =
     [Str ''Potential memory leak detected: memory growing at '', F0 growth_mb_per_hour,
      Str '' MB/hour over the last '', Num (int n_averages * 10), Str '' minutes ('',
      Num (int growth), Str ''/'', Num (int total_comparisons),
      Str '' intervals show growth)'']"

definition detect_memory_leak :: "real \<Rightarrow> real \<Rightarrow> (real \<times> real) list \<Rightarrow> anomaly option" where
  "detect_memory_leak now ts history =
     (if length history < 60 then None
      else
        let averages = bucket_averages now history
        in if length averages < 6 then None
           else
             let growth = growth_count averages;
                 total_comparisons = length averages - 1
             in if total_comparisons < 5 then None
                else
                  let growth_ratio = real growth / real total_comparisons
                  in if growth_ratio \<ge> 0.75 then
                       (let growth_bytes = last averages - hd averages;
                            growth_per_hour =
                              growth_bytes * (3600 / (real (length averages) * 600));
                            growth_mb_per_hour = growth_per_hour / (1024 * 1024)
                        in if growth_mb_per_hour > 50 then
                             Some \<lparr>timestamp = ts,
                                   anomaly_type = ''memory_leak'',
                                   severity = (if growth_mb_per_hour > 100 then High else Medium),
                                   metric_name = ''memory_used'',
                                   metric_value = last averages,
                                   baseline_mean = hd averages,
                                   baseline_stddev = 0,
                                   z_score = 0,
                                   description =
                                     leak_description growth_mb_per_hour (length averages)
                                       growth total_comparisons\<rparr>
                           else None)
                     else None)"

text \<open>
  The claim's words: the adjacent pairs of bucket averages, the fraction of them that
  rises, and the growth per hour in MB extrapolated from the first and last average.
\<close>

definition adjacent_pairs :: "real list \<Rightarrow> (real \<times> real) list" where
  "adjacent_pairs xs = zip xs (tl xs)"

definition increase_fraction :: "real list \<Rightarrow> real" where
  "increase_fraction xs =
     real (length (filter (\<lambda>p. fst p < snd p) (adjacent_pairs xs)))
       / real (length (adjacent_pairs xs))"

definition growth_mb :: "real list \<Rightarrow> real" where
  "growth_mb xs =
     (last xs - hd xs) * 3600 / (real (length xs) * 600) / (1024 * 1024)"

lemma length_adjacent_pairs: "length (adjacent_pairs xs) = length xs - 1"
  by (simp add: adjacent_pairs_def)

lemma adjacent_pairs_index:
  "adjacent_pairs xs = map (\<lambda>i. (xs ! i, xs ! (i + 1))) [0..<length xs - 1]"
proof (rule nth_equalityI)
  show "length (adjacent_pairs xs) = length (map (\<lambda>i. (xs ! i, xs ! (i + 1))) [0..<length xs - 1])"
    by (simp add: adjacent_pairs_def)
next
  fix i assume "i < length (adjacent_pairs xs)"
  then have i: "i < length xs - 1" by (simp add: adjacent_pairs_def)
  then show "adjacent_pairs xs ! i = map (\<lambda>i. (xs ! i, xs ! (i + 1))) [0..<length xs - 1] ! i"
    by (simp add: adjacent_pairs_def nth_tl)
qed

lemma growth_count_pairs:
  "growth_count xs = length (filter (\<lambda>p. fst p < snd p) (adjacent_pairs xs))"
  unfolding growth_count_def adjacent_pairs_index
  by (simp add: filter_map comp_def)

lemma growth_ratio_fraction:
  "real (growth_count xs) / real (length xs - 1) = increase_fraction xs"
  by (simp add: increase_fraction_def growth_count_pairs length_adjacent_pairs)

lemma growth_mb_code:
  "(last xs - hd xs) * (3600 / (real (length xs) * 600)) / (1024 * 1024) = growth_mb xs"
  by (cases "length xs = 0") (simp_all add: growth_mb_def field_simps)

lemma length_fill_buckets: "length (fill_buckets now history) = 12"
proof -
  have "length (fold (\<lambda>e buckets.
             let idx = bucket_idx now (fst e)
             in if 0 \<le> idx \<and> idx < bucket_count
                then buckets[nat idx := buckets ! nat idx @ [snd e]]
                else buckets) history bs) = length bs" for bs
    by (induction history arbitrary: bs) (simp_all add: Let_def)
  then show ?thesis by (simp add: fill_buckets_def bucket_count_def)
qed

lemma detect_memory_leak_char:
  "detect_memory_leak now ts h =
     (if 60 \<le> length h \<and> 6 \<le> length (bucket_averages now h) \<and>
         0.75 \<le> increase_fraction (bucket_averages now h) \<and>
         50 < growth_mb (bucket_averages now h)
      then Some \<lparr>timestamp = ts,
                 anomaly_type = ''memory_leak'',
                 severity = (if 100 < growth_mb (bucket_averages now h) then High else Medium),
                 metric_name = ''memory_used'',
                 metric_value = last (bucket_averages now h),
                 baseline_mean = hd (bucket_averages now h),
                 baseline_stddev = 0,
                 z_score = 0,
                 description =
                   leak_description (growth_mb (bucket_averages now h))
                     (length (bucket_averages now h)) (growth_count (bucket_averages now h))
                     (length (bucket_averages now h) - 1)\<rparr>
      else None)"
  unfolding detect_memory_leak_def Let_def growth_ratio_fraction growth_mb_code
  by auto

definition leak_history :: "(real \<times> real) list" where
  "leak_history =
     map (\<lambda>j. (120 * real j + 60, 10 * 1024 * 1024 * real (j div 5))) [0..<60]"

lemma list_update_Cons_numeral:
  "(x # xs)[numeral v := y] = x # xs[numeral v - 1 := y]"
  by (simp add: numeral_eq_Suc)

lemma replicate_12: "replicate 12 x = [x, x, x, x, x, x, x, x, x, x, x, x]"
  by (simp add: eval_nat_numeral)

lemma leak_history_buckets:
  "fill_buckets 7200 leak_history =
     map (\<lambda>k. replicate 5 (10 * 1024 * 1024 * real k)) [0..<12]"
proof -
  have "fill_buckets 7200 leak_history =
     (replicate 12 [])
         [0 := [0, 0, 0, 0, 0],
          Suc 0 := [10485760, 10485760, 10485760, 10485760, 10485760],
          2 := [20971520, 20971520, 20971520, 20971520, 20971520],
          3 := [31457280, 31457280, 31457280, 31457280, 31457280],
          4 := [41943040, 41943040, 41943040, 41943040, 41943040],
          5 := [52428800, 52428800, 52428800, 52428800, 52428800],
          6 := [62914560, 62914560, 62914560, 62914560, 62914560],
          7 := [73400320, 73400320, 73400320, 73400320, 73400320],
          8 := [83886080, 83886080, 83886080, 83886080, 83886080],
          9 := [94371840, 94371840, 94371840, 94371840, 94371840],
          10 := [104857600, 104857600, 104857600, 104857600, 104857600],
          11 := [115343360, 115343360, 115343360, 115343360, 115343360]]"
    by (simp add: fill_buckets_def leak_history_def bucket_idx_def
      py_int_def bucket_count_def bucket_duration_def upt_rec Let_def)
  also have "\<dots> = map (\<lambda>k. replicate 5 (10 * 1024 * 1024 * real k)) [0..<12]"
    unfolding replicate_12
    by (simp add: list_update_Cons_numeral upt_rec eval_nat_numeral)
  finally show ?thesis .
qed

lemma leak_history_averages:
  "bucket_averages 7200 leak_history =
     [0, 10485760, 20971520, 31457280, 41943040, 52428800, 62914560,
      73400320, 83886080, 94371840, 104857600, 115343360]"
  unfolding bucket_averages_def leak_history_buckets
  by (simp add: upt_rec np_mean_def eval_nat_numeral)

text \<open>
  C3. \<open>_detect_memory_leak\<close> returns an anomaly exactly when the buffer holds at least
  60 points, the twelve buckets give at least 6 averages (hence at least 5 adjacent
  pairs), at least 0.75 of the adjacent pairs rise, and the growth extrapolated to one
  hour exceeds 50 MB. The anomaly has type \<open>memory_leak\<close>, z-score 0, the first average
  as baseline mean, the last average as metric value, and severity high when the growth
  exceeds 100 MB per hour, medium otherwise.
\<close>

theorem memory_leak_exactly_when:
  "length (fill_buckets now h) = 12 \<and>
   ((\<exists>a. detect_memory_leak now ts h = Some a) \<longleftrightarrow>
      60 \<le> length h \<and> 6 \<le> length (bucket_averages now h) \<and>
      5 \<le> length (adjacent_pairs (bucket_averages now h)) \<and>
      0.75 \<le> increase_fraction (bucket_averages now h) \<and>
      50 < growth_mb (bucket_averages now h)) \<and>
   (\<forall>a. detect_memory_leak now ts h = Some a \<longrightarrow>
      anomaly_type a = ''memory_leak'' \<and> z_score a = 0 \<and>
      baseline_mean a = hd (bucket_averages now h) \<and>
      metric_value a = last (bucket_averages now h) \<and>
      severity a = (if 100 < growth_mb (bucket_averages now h) then High else Medium))"
proof (intro conjI)
  show "length (fill_buckets now h) = 12" by (rule length_fill_buckets)
  have p: "6 \<le> length (bucket_averages now h) \<Longrightarrow>
      5 \<le> length (adjacent_pairs (bucket_averages now h))"
    unfolding length_adjacent_pairs by arith
  show "(\<exists>a. detect_memory_leak now ts h = Some a) \<longleftrightarrow>
      60 \<le> length h \<and> 6 \<le> length (bucket_averages now h) \<and>
      5 \<le> length (adjacent_pairs (bucket_averages now h)) \<and>
      0.75 \<le> increase_fraction (bucket_averages now h) \<and>
      50 < growth_mb (bucket_averages now h)"
    unfolding detect_memory_leak_char using p
    by (cases "60 \<le> length h \<and> 6 \<le> length (bucket_averages now h) \<and>
         0.75 \<le> increase_fraction (bucket_averages now h) \<and>
         50 < growth_mb (bucket_averages now h)") auto
  show "\<forall>a. detect_memory_leak now ts h = Some a \<longrightarrow>
      anomaly_type a = ''memory_leak'' \<and> z_score a = 0 \<and>
      baseline_mean a = hd (bucket_averages now h) \<and>
      metric_value a = last (bucket_averages now h) \<and>
      severity a = (if 100 < growth_mb (bucket_averages now h) then High else Medium)"
    unfolding detect_memory_leak_char
    by (cases "60 \<le> length h \<and> 6 \<le> length (bucket_averages now h) \<and>
         0.75 \<le> increase_fraction (bucket_averages now h) \<and>
         50 < growth_mb (bucket_averages now h)") auto
qed

lemma leak_history_fraction: "increase_fraction (bucket_averages 7200 leak_history) = 1"
  unfolding leak_history_averages
  by (simp add: increase_fraction_def adjacent_pairs_def)

lemma leak_history_growth: "growth_mb (bucket_averages 7200 leak_history) = 55"
  unfolding leak_history_averages
  by (simp add: growth_mb_def)

theorem memory_leak_exactly_when_witness:
  "60 \<le> length leak_history \<and> 6 \<le> length (bucket_averages 7200 leak_history) \<and>
   5 \<le> length (adjacent_pairs (bucket_averages 7200 leak_history)) \<and>
   0.75 \<le> increase_fraction (bucket_averages 7200 leak_history) \<and>
   50 < growth_mb (bucket_averages 7200 leak_history) \<and>
   (\<exists>a. detect_memory_leak 7200 7200 leak_history = Some a \<and>
        anomaly_type a = ''memory_leak'' \<and> z_score a = 0 \<and> baseline_mean a = 0 \<and>
        metric_value a = 115343360 \<and> severity a = Medium)"
proof -
  have 1: "60 \<le> length leak_history" by (simp add: leak_history_def)
  have 2: "6 \<le> length (bucket_averages 7200 leak_history)"
    unfolding leak_history_averages by simp
  have 3: "5 \<le> length (adjacent_pairs (bucket_averages 7200 leak_history))"
    unfolding leak_history_averages by (simp add: adjacent_pairs_def)
  have 4: "0.75 \<le> increase_fraction (bucket_averages 7200 leak_history)"
    by (simp add: leak_history_fraction)
  have 5: "50 < growth_mb (bucket_averages 7200 leak_history)"
    by (simp add: leak_history_growth)
  have 6: "\<not> 100 < growth_mb (bucket_averages 7200 leak_history)"
    by (simp add: leak_history_growth)
  have 7: "hd (bucket_averages 7200 leak_history) = 0"
    "last (bucket_averages 7200 leak_history) = 115343360"
    unfolding leak_history_averages by simp_all
  from memory_leak_exactly_when[of 7200 leak_history 7200] 1 2 3 4 5
  obtain a where a: "detect_memory_leak 7200 7200 leak_history = Some a" by blast
  with memory_leak_exactly_when[of 7200 leak_history 7200]
  have "anomaly_type a = ''memory_leak'' \<and> z_score a = 0 \<and>
      baseline_mean a = hd (bucket_averages 7200 leak_history) \<and>
      metric_value a = last (bucket_averages 7200 leak_history) \<and>
      severity a = (if 100 < growth_mb (bucket_averages 7200 leak_history) then High else Medium)"
    by blast
  with 6 7 have "anomaly_type a = ''memory_leak'' \<and> z_score a = 0 \<and> baseline_mean a = 0 \<and>
        metric_value a = 115343360 \<and> severity a = Medium"
    by simp
  with a 1 2 3 4 5 show ?thesis by blast
qed

section \<open>Root cause analysis: data\<close>

text \<open>
  A process record is a dict; a key can be absent, present with \<^verbatim>\<open>None\<close>, or present
  with a value. The records of the collector and the rows of the table
  \<^verbatim>\<open>process_metrics\<close> carry more keys than the ones below; the analysis reads only
  these.
\<close>

datatype 'a field = Missing | Null | Val 'a

record process =
  pid :: "int field"
  name :: "string field"
  cpu_percent :: "real field"
  memory_rss :: "real field"
  ppid :: "int field"
  io_read_bytes :: "real field"
  io_write_bytes :: "real field"
  io_read_count :: "real field"
  io_write_count :: "real field"

text \<open>
  \<^verbatim>\<open>d.get(k)\<close> and \<^verbatim>\<open>d.get(k, default)\<close>; the result \<open>None\<close> is Python's
  \<^verbatim>\<open>None\<close>. \<^verbatim>\<open>x or 0\<close> on a number or \<^verbatim>\<open>None\<close>.
\<close>

fun pget :: "'a field \<Rightarrow> 'a option" where
  "pget Missing = None"
| "pget Null = None"
| "pget (Val v) = Some v"

fun pget_default :: "'a field \<Rightarrow> 'a \<Rightarrow> 'a option" where
  "pget_default Missing d = Some d"
| "pget_default Null d = None"
| "pget_default (Val v) d = Some v"

fun or_zero :: "real option \<Rightarrow> real" where
  "or_zero None = 0"
| "or_zero (Some v) = (if v = 0 then 0 else v)"

text \<open>The empty dict \<^verbatim>\<open>{}\<close>.\<close>

definition empty_process :: process where
  "empty_process =
     \<lparr>pid = Missing, name = Missing, cpu_percent = Missing, memory_rss = Missing,
      ppid = Missing, io_read_bytes = Missing, io_write_bytes = Missing,
      io_read_count = Missing, io_write_count = Missing\<rparr>"

text \<open>\<^verbatim>\<open>proc.get(sort_key, 0)\<close> for the two keys the ranking uses.\<close>

definition sort_field :: "string \<Rightarrow> process \<Rightarrow> real field" where
  "sort_field key p =
     (if key = ''cpu_percent'' then cpu_percent p
      else if key = ''memory_rss'' then memory_rss p
      else Missing)"

text \<open>\<^verbatim>\<open>sub in s\<close> on strings.\<close>

fun contains :: "string \<Rightarrow> string \<Rightarrow> bool" where
  "contains sub [] = (sub = [])"
| "contains sub (c # cs) = (take (length sub) (c # cs) = sub \<or> contains sub cs)"

text \<open>
  The two queries of the database manager that the analysis calls; each may raise.
\<close>

record metric_row =
  row_timestamp :: "real option"
  row_value :: "string \<Rightarrow> real option"

record history_db =
  get_system_metrics :: "real \<Rightarrow> real \<Rightarrow> error + metric_row list"
  get_process_metrics_at :: "real \<Rightarrow> error + process list"

record contributor =
  c_pid :: "int option"
  c_name :: "string option"
  current_value :: real
  previous_value :: real
  delta :: real
  is_new_process :: bool
  metric :: string
  display :: msg

record tree_node =
  n_pid :: "int option"
  n_name :: "string option"
  n_cpu_percent :: "real option"
  n_memory_rss :: "real option"

section \<open>Root cause analysis: contribution ranking\<close>

definition choose_sort_key :: "string \<Rightarrow> string" where
  "choose_sort_key atype =
     (if contains ''cpu'' atype then ''cpu_percent''
      else if contains ''memory'' atype then ''memory_rss''
      else if contains ''io'' atype \<or> contains ''swap'' atype then ''memory_rss''
      else ''cpu_percent'')"

text \<open>An f-string prints \<^verbatim>\<open>None\<close> for a missing name or pid.\<close>

definition name_tok :: "string option \<Rightarrow> tok" where
  "name_tok n = (case n of None \<Rightarrow> PyNone | Some s \<Rightarrow> Str s)"

definition pid_tok :: "int option \<Rightarrow> tok" where
  "pid_tok p = (case p of None \<Rightarrow> PyNone | Some i \<Rightarrow> Num i)"

definition contributor_display ::
  "string \<Rightarrow> string option \<Rightarrow> int option \<Rightarrow> real \<Rightarrow> real \<Rightarrow> bool \<Rightarrow> msg" where
  "contributor_display key nm p current_val d is_new =
     (if key = ''cpu_percent'' then
        [name_tok nm, Str '' (PID '', pid_tok p, Str ''): '', F1 current_val, Str ''% CPU'']
        @ (if is_new then [Str '' (new process)'']
           else if d > 1 then [Str '' (+'', F1 d, Str ''%)''] else [])
      else if key = ''memory_rss'' then
        [name_tok nm, Str '' (PID '', pid_tok p, Str ''): '', Bytes current_val, Str '' memory'']
        @ (if is_new then [Str '' (new process)'']
           else if d > 1024 * 1024 then [Str '' (+'', Bytes d, Str '')''] else [])
      else [])"

text \<open>\<^verbatim>\<open>prev_map\<close>: the earlier snapshot indexed by pid; a later record wins.\<close>

definition index_by_pid :: "process list \<Rightarrow> (int option \<rightharpoonup> process)" where
  "index_by_pid ps = fold (\<lambda>p m. m(pget (pid p) \<mapsto> p)) ps Map.empty"

text \<open>The body of the loop over \<^verbatim>\<open>current_processes[:20]\<close>.\<close>

definition make_contributor :: "string \<Rightarrow> (int option \<rightharpoonup> process) \<Rightarrow> process \<Rightarrow> contributor" where
  "make_contributor key prev_map proc =
     (let p = pget (pid proc);
          nm = pget_default (name proc) ''unknown'';
          current_val = or_zero (pget_default (sort_field key proc) 0);
          prev_proc = get_or prev_map p empty_process;
          prev_val = or_zero (pget_default (sort_field key prev_proc) 0);
          d = current_val - prev_val;
          is_new = (p \<notin> dom prev_map)
      in \<lparr>c_pid = p, c_name = nm, current_value = current_val, previous_value = prev_val,
          delta = d, is_new_process = is_new, metric = key,
          display = contributor_display key nm p current_val d is_new\<rparr>)"

text \<open>
  \<^verbatim>\<open>contributors.sort(key=lambda c: abs(c["current_value"]), reverse=True)\<close>: a stable
  sort, largest first.
\<close>

definition rank_contributors :: "contributor list \<Rightarrow> contributor list" where
  "rank_contributors cs = sort_key (\<lambda>c. - \<bar>current_value c\<bar>) cs"

definition analyze_process_contributions ::
  "history_db \<Rightarrow> string \<Rightarrow> real \<Rightarrow> process list \<Rightarrow> error + contributor list" where
  "analyze_process_contributions db atype ts current_processes =
     (let key = choose_sort_key atype;
          prev_timestamp = ts - 30
      in case get_process_metrics_at db prev_timestamp of
           Inl e \<Rightarrow> Inl e
         | Inr prev_processes \<Rightarrow>
             let prev_map = index_by_pid prev_processes;
                 contributors = map (make_contributor key prev_map) (take 20 current_processes)
             in Inr (take 10 (rank_contributors contributors)))"

section \<open>Root cause analysis: process tree\<close>

text \<open>Truth value of a pid: \<^verbatim>\<open>None\<close> and 0 are false.\<close>

definition truthy_pid :: "int option \<Rightarrow> bool" where
  "truthy_pid p = (case p of None \<Rightarrow> False | Some i \<Rightarrow> i \<noteq> 0)"

definition make_node :: "int option \<Rightarrow> process \<Rightarrow> tree_node" where
  "make_node current_pid proc =
     \<lparr>n_pid = current_pid,
      n_name = pget_default (name proc) ''unknown'',
      n_cpu_percent = pget_default (cpu_percent proc) 0,
      n_memory_rss = pget_default (memory_rss proc) 0\<rparr>"

text \<open>
  The \<^verbatim>\<open>while\<close> loop of \<^verbatim>\<open>_build_process_tree\<close>, with its state (\<open>current_pid\<close>,
  \<open>visited\<close>, \<open>tree\<close>). A record found under a true pid has that pid as a key, so the
  dict is not empty and \<^verbatim>\<open>if proc:\<close> holds exactly when the lookup finds one. The
  test after the step to the parent is the one of the source:
  \<^verbatim>\<open>current_pid == 0 or current_pid == current_pid\<close>.
\<close>

function walk_parents ::
  "(int option \<rightharpoonup> process) \<Rightarrow> int option \<Rightarrow> int option set \<Rightarrow> tree_node list \<Rightarrow> tree_node list" where
  "walk_parents proc_map current_pid visited tree =
     (if truthy_pid current_pid \<and> current_pid \<notin> visited then
        (case proc_map current_pid of
           Some proc \<Rightarrow>
             (let tree' = tree @ [make_node current_pid proc];
                  next_pid = pget (ppid proc)
              in if next_pid = Some 0 \<or> next_pid = next_pid then tree'
                 else walk_parents proc_map next_pid (insert current_pid visited) tree')
         | None \<Rightarrow> tree)
      else tree)"
  by pat_completeness auto
termination
  by (relation "{}") auto

definition build_process_tree :: "int option \<Rightarrow> process list \<Rightarrow> tree_node list" where
  "build_process_tree target_pid current_processes =
     rev (walk_parents (index_by_pid current_processes) target_pid {} [])"

end
